theory Spec2Isabelle
  imports Main "HOL-Library.Word"
begin

section \<open>The file system the notebook works on\<close>

text \<open>
  The notebook \<^verbatim>\<open>1-COVID-19-Loading-Data.ipynb\<close> is a sequence of cells that call
  \<^verbatim>\<open>pathlib\<close>, \<^verbatim>\<open>shutil\<close>, \<^verbatim>\<open>urllib\<close>, \<^verbatim>\<open>zipfile\<close>, \<^verbatim>\<open>pandas\<close> and
  \<^verbatim>\<open>geopandas\<close>. Its only state is the file system below the directory the notebook
  runs in, so a directory is a finite-looking map from entry names to nodes, and the
  state of a run is the map of the current working directory.

  A node is a regular file with its bytes, a directory with its entries, or a dangling
  symbolic link: the one kind of entry for which \<^verbatim>\<open>Path.is_dir()\<close> and
  \<^verbatim>\<open>Path.is_file()\<close> both answer \<^verbatim>\<open>False\<close> although the name is taken.
  Permissions and disk space are not modelled: an operation fails only for the shape of
  the tree it meets.
\<close>

type_synonym bytes = "8 word list"

datatype node = File bytes | Dir "string \<Rightarrow> node option" | DanglingLink

type_synonym dir = "string \<Rightarrow> node option"

text \<open>The exceptions of Python that the calls of the notebook raise.\<close>

datatype error =
    FileExistsError
  | FileNotFoundError
  | NotADirectoryError
  | IsADirectoryError
  | OSError
  | URLError
  | HTTPError nat
  | ParserError
  | BadZipFile
  | DriverError

text \<open>
  A statement either completes and leaves a new state, or raises and leaves the state
  it had reached. No cell of the notebook has a \<^verbatim>\<open>try\<close>, so a raised exception
  ends the cell and the run.
\<close>

datatype outcome = Done dir | Raised error dir

definition final_state :: "outcome \<Rightarrow> dir" where
  "final_state r = (case r of Done fs \<Rightarrow> fs | Raised e fs \<Rightarrow> fs)"

definition raised :: "outcome \<Rightarrow> error option" where
  "raised r = (case r of Done fs \<Rightarrow> None | Raised e fs \<Rightarrow> Some e)"

subsection \<open>pathlib and shutil\<close>

definition is_dir :: "dir \<Rightarrow> string \<Rightarrow> bool" where
  "is_dir m p = (case m p of Some (Dir c) \<Rightarrow> True | _ \<Rightarrow> False)"

definition is_file :: "dir \<Rightarrow> string \<Rightarrow> bool" where
  "is_file m p = (case m p of Some (File b) \<Rightarrow> True | _ \<Rightarrow> False)"

text \<open>\<^verbatim>\<open>shutil.rmtree(p)\<close>: removes a directory with everything below it.\<close>

definition rmtree :: "string \<Rightarrow> dir \<Rightarrow> outcome" where
  "rmtree p m =
     (case m p of
        None \<Rightarrow> Raised FileNotFoundError m
      | Some (Dir c) \<Rightarrow> Done (m(p := None))
      | Some (File b) \<Rightarrow> Raised NotADirectoryError m
      | Some DanglingLink \<Rightarrow> Raised OSError m)"

text \<open>\<^verbatim>\<open>Path.unlink()\<close>: removes a file or a link, never a directory.\<close>

definition unlink :: "string \<Rightarrow> dir \<Rightarrow> outcome" where
  "unlink p m =
     (case m p of
        None \<Rightarrow> Raised FileNotFoundError m
      | Some (Dir c) \<Rightarrow> Raised IsADirectoryError m
      | Some (File b) \<Rightarrow> Done (m(p := None))
      | Some DanglingLink \<Rightarrow> Done (m(p := None)))"

text \<open>\<^verbatim>\<open>Path.mkdir()\<close> with its defaults: the name must be free.\<close>

definition mkdir :: "string \<Rightarrow> dir \<Rightarrow> outcome" where
  "mkdir p m =
     (case m p of
        None \<Rightarrow> Done (m(p \<mapsto> Dir Map.empty))
      | Some n \<Rightarrow> Raised FileExistsError m)"

text \<open>
  An operation on \<^verbatim>\<open>download_folder / name\<close> works inside the directory stored under
  \<^verbatim>\<open>download_folder\<close>: \<open>at_dir d f\<close> runs \<open>f\<close> on the entries of \<open>d\<close> and stores what it
  leaves, also when \<open>f\<close> raises.
\<close>

definition at_dir :: "string \<Rightarrow> (dir \<Rightarrow> outcome) \<Rightarrow> dir \<Rightarrow> outcome" where
  "at_dir d f fs =
     (case fs d of
        None \<Rightarrow> Raised FileNotFoundError fs
      | Some (Dir c) \<Rightarrow>
          (case f c of
             Done c' \<Rightarrow> Done (fs(d \<mapsto> Dir c'))
           | Raised e c' \<Rightarrow> Raised e (fs(d \<mapsto> Dir c')))
      | Some (File b) \<Rightarrow> Raised NotADirectoryError fs
      | Some DanglingLink \<Rightarrow> Raised FileNotFoundError fs)"

text \<open>The entry \<open>x\<close> of the directory \<open>d\<close>, if \<open>d\<close> is a directory and has it.\<close>

definition child :: "dir \<Rightarrow> string \<Rightarrow> string \<Rightarrow> node option" where
  "child fs d x = (case fs d of Some (Dir c) \<Rightarrow> c x | _ \<Rightarrow> None)"

section \<open>Cell 6: workspace preparation\<close>

text \<open>
  \<^verbatim>\<open>
  download_folder = Path(datetime.today().strftime('%Y-%m-%d') + '-COVID-19-Data')
  if download_folder.is_dir():
      shutil.rmtree(download_folder)
  elif download_folder.is_file():
      download_folder.unlink()
  download_folder.mkdir()
  \<close>
  The date is the only input: \<open>today\<close> is the text \<^verbatim>\<open>strftime\<close> returns.
\<close>

definition download_folder :: "string \<Rightarrow> string" where
  "download_folder today = today @ ''-COVID-19-Data''"

definition cell_6 :: "string \<Rightarrow> dir \<Rightarrow> outcome" where
  "cell_6 today fs =
     (let d = download_folder today in
      case (if is_dir fs d then rmtree d fs
            else if is_file fs d then unlink d fs
            else Done fs) of
        Raised e fs1 \<Rightarrow> Raised e fs1
      | Done fs1 \<Rightarrow> mkdir d fs1)"

section \<open>The world outside: network and libraries\<close>

text \<open>
  What a fetch returns is decided outside the notebook: by the remote servers and by the
  parsers of \<^verbatim>\<open>pandas\<close>, \<^verbatim>\<open>zipfile\<close> and \<^verbatim>\<open>geopandas\<close>. These are the parameters
  of a run. \<open>'df\<close> is the type of a parsed table (a \<^verbatim>\<open>DataFrame\<close> or a
  \<^verbatim>\<open>GeoDataFrame\<close>); the notebook never looks inside one.
  \<^item> \<open>today\<close>: \<^verbatim>\<open>datetime.today().strftime('%Y-%m-%d')\<close>;
  \<^item> \<open>pd_read_csv url\<close>: \<^verbatim>\<open>pd.read_csv(url)\<close>, the table or the exception;
  \<^item> \<open>urlopen_read url\<close>: \<^verbatim>\<open>urlopen(url).read()\<close>, the body or the exception;
  \<^item> \<open>zip_members body\<close>: \<^verbatim>\<open>ZipFile(BytesIO(body))\<close>, the members in archive order
    (each a name and its bytes; member names are taken as single path components) or
    the exception;
  \<^item> \<open>gpd_parse c shp\<close>: what \<^verbatim>\<open>gpd.read_file\<close> makes of the file \<open>shp\<close> and its
    companions in the directory \<open>c\<close>;
  \<^item> \<open>pickle_dumps df\<close>: the bytes \<^verbatim>\<open>to_pickle\<close> writes for \<open>df\<close>.
\<close>

record 'df world =
  today :: string
  pd_read_csv :: "string \<Rightarrow> error + 'df"
  urlopen_read :: "string \<Rightarrow> error + bytes"
  zip_members :: "bytes \<Rightarrow> error + (string \<times> bytes) list"
  gpd_parse :: "dir \<Rightarrow> string \<Rightarrow> error + 'df"
  pickle_dumps :: "'df \<Rightarrow> bytes"

section \<open>The fetch steps\<close>

subsection \<open>Writing files\<close>

text \<open>
  \<^verbatim>\<open>open(p, 'wb')\<close> followed by a write: the name becomes a regular file with the bytes
  written, replacing a file that was there. (Written through a dangling link, the name
  then resolves to that file.)
\<close>

definition write_bytes :: "string \<Rightarrow> bytes \<Rightarrow> dir \<Rightarrow> outcome" where
  "write_bytes p b m =
     (case m p of
        Some (Dir c) \<Rightarrow> Raised IsADirectoryError m
      | _ \<Rightarrow> Done (m(p \<mapsto> File b)))"

text \<open>\<^verbatim>\<open>df.to_pickle(download_folder / pkl)\<close>.\<close>

definition to_pickle :: "'df world \<Rightarrow> 'df \<Rightarrow> string \<Rightarrow> string \<Rightarrow> dir \<Rightarrow> outcome" where
  "to_pickle w df d pkl fs = at_dir d (write_bytes pkl (pickle_dumps w df)) fs"

text \<open>
  \<^verbatim>\<open>zip_file.extractall(sub_folder)\<close> with \<^verbatim>\<open>sub_folder = download_folder / sub\<close>
  extracts member after member. For each one it creates the missing directories of the
  target (\<^verbatim>\<open>os.makedirs\<close>) and writes the file; an archive without members touches
  nothing.
\<close>

definition write_member :: "string \<Rightarrow> string \<Rightarrow> bytes \<Rightarrow> dir \<Rightarrow> outcome" where
  "write_member sub name b m =
     (case m sub of
        None \<Rightarrow> Done (m(sub \<mapsto> Dir (Map.empty(name \<mapsto> File b))))
      | Some DanglingLink \<Rightarrow> Raised FileExistsError m
      | _ \<Rightarrow> at_dir sub (write_bytes name b) m)"

definition extract_member :: "string \<Rightarrow> string \<Rightarrow> string \<Rightarrow> bytes \<Rightarrow> dir \<Rightarrow> outcome" where
  "extract_member d sub name b fs =
     (case fs d of
        None \<Rightarrow> Done (fs(d \<mapsto> Dir (Map.empty(sub \<mapsto> Dir (Map.empty(name \<mapsto> File b))))))
      | _ \<Rightarrow> at_dir d (write_member sub name b) fs)"

fun extractall :: "(string \<times> bytes) list \<Rightarrow> string \<Rightarrow> string \<Rightarrow> dir \<Rightarrow> outcome" where
  "extractall [] d sub fs = Done fs"
| "extractall ((name, b) # rest) d sub fs =
     (case extract_member d sub name b fs of
        Raised e fs1 \<Rightarrow> Raised e fs1
      | Done fs1 \<Rightarrow> extractall rest d sub fs1)"

text \<open>
  \<^verbatim>\<open>gpd.read_file(sub_folder / shp)\<close>: fails when the file is not there, and otherwise
  returns what the geometry parser makes of the directory.
\<close>

definition gpd_read_file :: "'df world \<Rightarrow> string \<Rightarrow> string \<Rightarrow> string \<Rightarrow> dir \<Rightarrow> error + 'df" where
  "gpd_read_file w d sub shp fs =
     (case child fs d sub of
        Some (Dir c) \<Rightarrow>
          (case c shp of
             Some (File b) \<Rightarrow> gpd_parse w c shp
           | _ \<Rightarrow> Inl DriverError)
      | _ \<Rightarrow> Inl DriverError)"

subsection \<open>The two kinds of step\<close>

text \<open>
  Every fetch of the notebook is one of two sequences of statements. The tabular one
  (cells 9, 14, 17, 21, 25):
  \<^verbatim>\<open>
  df = pd.read_csv(url)
  df.to_pickle(download_folder / pkl)
  \<close>
  and the archive one (cells 28, 31, 33):
  \<^verbatim>\<open>
  sub_folder = download_folder / sub
  urlcleanup()
  with urlopen(url) as zip_response:
      with ZipFile(BytesIO(zip_response.read())) as zip_file:
          zip_file.extractall(sub_folder)
  gdf = gpd.read_file(sub_folder / shp)
  gdf.to_pickle(download_folder / pkl)
  shutil.rmtree(sub_folder)
  \<close>
  A step is described by the texts that differ between the cells: \<open>Tabular url pkl\<close>
  and \<open>Archive url sub shp pkl\<close>, with \<open>url\<close> the address requested, \<open>sub\<close> the
  name of the scratch subdirectory, \<open>shp\<close> the name of the shapefile read from it and
  \<open>pkl\<close> the name of the cache file.
  (\<^verbatim>\<open>urlcleanup()\<close> empties the cache of \<^verbatim>\<open>urlretrieve\<close>, which the notebook never
  fills; the cells that only display or plot a table write nothing.)
\<close>

datatype step =
    Tabular string string
  | Archive string string string string

fun cache_file :: "step \<Rightarrow> string" where
  "cache_file (Tabular url pkl) = pkl"
| "cache_file (Archive url sub shp pkl) = pkl"

fun sub_folders :: "step \<Rightarrow> string list" where
  "sub_folders (Tabular url pkl) = []"
| "sub_folders (Archive url sub shp pkl) = [sub]"

text \<open>
  The statements of a step up to and including the parse: they yield the table or raise.
\<close>

fun acquire :: "'df world \<Rightarrow> string \<Rightarrow> step \<Rightarrow> dir \<Rightarrow> (error + 'df) \<times> dir" where
  "acquire w d (Tabular url pkl) fs = (pd_read_csv w url, fs)"
| "acquire w d (Archive url sub shp pkl) fs =
     (case urlopen_read w url of
        Inl e \<Rightarrow> (Inl e, fs)
      | Inr body \<Rightarrow>
          (case zip_members w body of
             Inl e \<Rightarrow> (Inl e, fs)
           | Inr members \<Rightarrow>
               (case extractall members d sub fs of
                  Raised e fs1 \<Rightarrow> (Inl e, fs1)
                | Done fs1 \<Rightarrow> (gpd_read_file w d sub shp fs1, fs1))))"

text \<open>The last statement of an archive step; a tabular step has none.\<close>

fun cleanup :: "string \<Rightarrow> step \<Rightarrow> dir \<Rightarrow> outcome" where
  "cleanup d (Tabular url pkl) fs = Done fs"
| "cleanup d (Archive url sub shp pkl) fs = at_dir d (rmtree sub) fs"

definition exec_step :: "'df world \<Rightarrow> string \<Rightarrow> step \<Rightarrow> dir \<Rightarrow> outcome" where
  "exec_step w d s fs =
     (case acquire w d s fs of
        (Inl e, fs1) \<Rightarrow> Raised e fs1
      | (Inr df, fs1) \<Rightarrow>
          (case to_pickle w df d (cache_file s) fs1 of
             Raised e fs2 \<Rightarrow> Raised e fs2
           | Done fs2 \<Rightarrow> cleanup d s fs2))"

text \<open>Steps run one after the other; the first exception ends the run.\<close>

fun run_steps :: "'df world \<Rightarrow> string \<Rightarrow> step list \<Rightarrow> dir \<Rightarrow> outcome" where
  "run_steps w d [] fs = Done fs"
| "run_steps w d (s # ss) fs =
     (case exec_step w d s fs of
        Raised e fs1 \<Rightarrow> Raised e fs1
      | Done fs1 \<Rightarrow> run_steps w d ss fs1)"

section \<open>The cells of the notebook\<close>

definition CTP_all_states :: string where
  "CTP_all_states = ''https://api.covidtracking.com/v1/states/daily.csv''"

definition CAN_Key :: string where
  "CAN_Key = ''<your key here>''"

definition CAN_File :: string where
  "CAN_File = ''states.timeseries.csv''"

definition JHU_Github_URL :: string where
  "JHU_Github_URL = ''https://raw.githubusercontent.com/CSSEGISandData/''"

definition JHU_Github_Path :: string where
  "JHU_Github_Path = ''COVID-19/master/csse_covid_19_data/csse_covid_19_time_series/''"

definition JHU_File_US_confirmed :: string where
  "JHU_File_US_confirmed = ''time_series_covid19_confirmed_US.csv''"

definition JHU_File_US_deaths :: string where
  "JHU_File_US_deaths = ''time_series_covid19_deaths_US.csv''"

definition JHU_File_Global_confirmed :: string where
  "JHU_File_Global_confirmed = ''time_series_covid19_confirmed_global.csv''"

definition JHU_File_Global_deaths :: string where
  "JHU_File_Global_deaths = ''time_series_covid19_deaths_global.csv''"

definition JHU_Github_Path2 :: string where
  "JHU_Github_Path2 = ''COVID-19_Unified-Dataset/master/''"

definition JHU_geo_data :: string where
  "JHU_geo_data = ''COVID-19_LUT.csv''"

text \<open>
  \<^verbatim>\<open>geodata_url\<close> and \<^verbatim>\<open>zip_file_path\<close> are assigned anew in later cells; the number
  of the assigning cell tells the values apart. Cell 33 assigns \<^verbatim>\<open>zip_file_path\<close> only
  and uses the \<^verbatim>\<open>geodata_url\<close> of cell 31.
\<close>

definition geodata_url_28 :: string where
  "geodata_url_28 = ''https://www.naturalearthdata.com/http//www.naturalearthdata.com/''"

definition zip_file_path_28 :: string where
  "zip_file_path_28 = ''download/10m/cultural/ne_10m_admin_0_countries.zip''"

definition geodata_url_31 :: string where
  "geodata_url_31 = ''https://www2.census.gov/geo/tiger/TIGER2017/''"

definition zip_file_path_31 :: string where
  "zip_file_path_31 = ''STATE/tl_2017_us_state.zip''"

definition zip_file_path_33 :: string where
  "zip_file_path_33 = ''COUNTY/tl_2017_us_county.zip''"

definition cell_9 :: "step list" where
  "cell_9 = [Tabular CTP_all_states ''covid_tracking_project.pkl'']"

text \<open>
  Cell 14 builds its address with an f-string:
  \<^verbatim>\<open>f'https://api.covidactnow.org/v2/{CAN_File}?apiKey={CAN_Key}'\<close>.
\<close>

definition cell_14 :: "step list" where
  "cell_14 =
     [Tabular (''https://api.covidactnow.org/v2/'' @ CAN_File @ ''?apiKey='' @ CAN_Key)
        ''covid_act_now.pkl'']"

definition cell_17 :: "step list" where
  "cell_17 =
     [Tabular (JHU_Github_URL @ JHU_Github_Path @ JHU_File_US_confirmed) ''jhu_confirmed_us.pkl'',
      Tabular (JHU_Github_URL @ JHU_Github_Path @ JHU_File_US_deaths) ''jhu_deaths_us.pkl'']"

definition cell_21 :: "step list" where
  "cell_21 =
     [Tabular (JHU_Github_URL @ JHU_Github_Path @ JHU_File_Global_confirmed)
        ''jhu_confirmed_global.pkl'',
      Tabular (JHU_Github_URL @ JHU_Github_Path @ JHU_File_Global_deaths)
        ''jhu_deaths_global.pkl'']"

definition cell_25 :: "step list" where
  "cell_25 = [Tabular (JHU_Github_URL @ JHU_Github_Path2 @ JHU_geo_data) ''jhu_geo_data.pkl'']"

definition cell_28 :: "step list" where
  "cell_28 =
     [Archive (geodata_url_28 @ zip_file_path_28) ''shapes_global''
        ''ne_10m_admin_0_countries.shp'' ''ne_10m_admin_0_countries.pkl'']"

definition cell_31 :: "step list" where
  "cell_31 =
     [Archive (geodata_url_31 @ zip_file_path_31) ''shapes_state''
        ''tl_2017_us_state.shp'' ''tl_2017_us_state.pkl'']"

definition cell_33 :: "step list" where
  "cell_33 =
     [Archive (geodata_url_31 @ zip_file_path_33) ''shapes_county''
        ''tl_2017_us_county.shp'' ''tl_2017_us_county.pkl'']"

definition fetch_steps :: "step list" where
  "fetch_steps =
     cell_9 @ cell_14 @ cell_17 @ cell_21 @ cell_25 @ cell_28 @ cell_31 @ cell_33"

text \<open>Running every cell in order.\<close>

definition run_notebook :: "'df world \<Rightarrow> dir \<Rightarrow> outcome" where
  "run_notebook w fs =
     (case cell_6 (today w) fs of
        Raised e fs1 \<Rightarrow> Raised e fs1
      | Done fs1 \<Rightarrow> run_steps w (download_folder (today w)) fetch_steps fs1)"

section \<open>Sample runs\<close>

text \<open>
  Concrete worlds and states on which the theorems below are evaluated. Tables are
  byte strings here and pickle as themselves. In \<open>sample_world\<close> every request is
  answered and every archive holds the three shapefiles the cells read.
\<close>

definition sample_world :: "bytes world" where
  "sample_world =
     \<lparr> today = ''2020-12-21'',
       pd_read_csv = (\<lambda>url. Inr [1]),
       urlopen_read = (\<lambda>url. Inr [80, 75]),
       zip_members = (\<lambda>body. Inr
         [(''ne_10m_admin_0_countries.shp'', [2]),
          (''tl_2017_us_state.shp'', [3]),
          (''tl_2017_us_county.shp'', [4])]),
       gpd_parse = (\<lambda>c shp. Inr [5]),
       pickle_dumps = (\<lambda>df. df) \<rparr>"

text \<open>The archives hold a text file only: the shapefile a cell reads is missing.\<close>

definition no_shp_world :: "bytes world" where
  "no_shp_world = sample_world \<lparr> zip_members := (\<lambda>body. Inr [(''README.txt'', [6])]) \<rparr>"

text \<open>
  The COVID Tracking Project answers; every other CSV request is refused with status
  403, as a request with a key that is not one would be.
\<close>

definition key_refused_world :: "bytes world" where
  "key_refused_world =
     sample_world \<lparr> pd_read_csv :=
       (\<lambda>url. if url = CTP_all_states then Inr [1] else Inl (HTTPError 403)) \<rparr>"

text \<open>A working directory with nothing in it, and the workspace of that day, empty.\<close>

definition empty_cwd :: dir where
  "empty_cwd = Map.empty"

definition fresh_cwd :: dir where
  "fresh_cwd = Map.empty(''2020-12-21-COVID-19-Data'' \<mapsto> Dir Map.empty)"

text \<open>The workspace of an earlier run of the same day, with one cache file in it.\<close>

definition used_cwd :: dir where
  "used_cwd =
     Map.empty(''2020-12-21-COVID-19-Data'' \<mapsto>
       Dir (Map.empty(''covid_tracking_project.pkl'' \<mapsto> File [1])))"

text \<open>The name of the workspace taken by a regular file, and by a dangling link.\<close>

definition file_cwd :: dir where
  "file_cwd = Map.empty(''2020-12-21-COVID-19-Data'' \<mapsto> File [7])"

definition link_cwd :: dir where
  "link_cwd = Map.empty(''2020-12-21-COVID-19-Data'' \<mapsto> DanglingLink)"

definition mid_step_cwd :: dir where
  "mid_step_cwd =
     Map.empty(''2020-12-21-COVID-19-Data'' \<mapsto>
       Dir (Map.empty
         (''covid_tracking_project.pkl'' \<mapsto> File [1],
          ''shapes_global'' \<mapsto> Dir (Map.empty(''ne_10m_admin_0_countries.shp'' \<mapsto> File [2])),
          ''ne_10m_admin_0_countries.pkl'' \<mapsto> File [5])))"

section \<open>Basic facts about the operations\<close>

lemma final_state_Done [simp]: "final_state (Done fs) = fs"
  by (simp add: final_state_def)

lemma final_state_Raised [simp]: "final_state (Raised e fs) = fs"
  by (simp add: final_state_def)

lemma raised_Done [simp]: "raised (Done fs) = None"
  by (simp add: raised_def)

lemma raised_Raised [simp]: "raised (Raised e fs) = Some e"
  by (simp add: raised_def)

lemma write_bytes_other: "x \<noteq> p \<Longrightarrow> final_state (write_bytes p b m) x = m x"
  by (simp add: write_bytes_def split: option.splits node.splits)

lemma write_bytes_Raised: "write_bytes p b m = Raised e m' \<Longrightarrow> m' = m"
  by (auto simp: write_bytes_def split: option.splits node.splits)

lemma write_bytes_Done: "write_bytes p b m = Done m' \<Longrightarrow> m' = m(p \<mapsto> File b)"
  by (auto simp: write_bytes_def split: option.splits node.splits)

lemma rmtree_other: "x \<noteq> p \<Longrightarrow> final_state (rmtree p m) x = m x"
  by (simp add: rmtree_def split: option.splits node.splits)

lemma rmtree_Done: "rmtree p m = Done m' \<Longrightarrow> m' = m(p := None)"
  by (auto simp: rmtree_def split: option.splits node.splits)

lemma at_dir_top: "p \<noteq> d \<Longrightarrow> final_state (at_dir d f fs) p = fs p"
  by (simp add: at_dir_def split: option.splits node.splits outcome.splits)

lemma child_at_dir:
  "child (final_state (at_dir d f fs)) d x =
     (case fs d of Some (Dir c) \<Rightarrow> final_state (f c) x | _ \<Rightarrow> None)"
  by (simp add: at_dir_def child_def split: option.splits node.splits outcome.splits)

lemma child_at_dir_frame:
  assumes "\<And>c. final_state (f c) x = c x"
  shows "child (final_state (at_dir d f fs)) d x = child fs d x"
  using assms by (simp add: child_at_dir) (simp add: child_def split: option.splits node.splits)

lemma write_member_other: "x \<noteq> sub \<Longrightarrow> final_state (write_member sub n b m) x = m x"
  by (simp add: write_member_def at_dir_top split: option.splits node.splits)

lemma extract_member_child:
  "x \<noteq> sub \<Longrightarrow> child (final_state (extract_member d sub n b fs)) d x = child fs d x"
proof (cases "fs d")
  case None
  assume "x \<noteq> sub"
  with None show ?thesis by (simp add: extract_member_def child_def)
next
  case (Some a)
  assume "x \<noteq> sub"
  then have "child (final_state (at_dir d (write_member sub n b) fs)) d x = child fs d x"
    by (simp add: child_at_dir_frame write_member_other)
  with Some show ?thesis by (simp add: extract_member_def)
qed

lemma extractall_child:
  "x \<noteq> sub \<Longrightarrow> child (final_state (extractall ms d sub fs)) d x = child fs d x"
proof (induction ms arbitrary: fs)
  case Nil
  then show ?case by simp
next
  case (Cons m ms)
  obtain n b where m: "m = (n, b)" by (cases m)
  show ?case
  proof (cases "extract_member d sub n b fs")
    case (Done fs1)
    with Cons extract_member_child [of x sub d n b fs] show ?thesis
      by (simp add: m)
  next
    case (Raised e fs1)
    with Cons extract_member_child [of x sub d n b fs] show ?thesis
      by (simp add: m)
  qed
qed

lemma acquire_child:
  "x \<notin> set (sub_folders s) \<Longrightarrow> child (snd (acquire w d s fs)) d x = child fs d x"
proof (cases s)
  case (Tabular url pkl)
  then show ?thesis by simp
next
  case (Archive url sub shp pkl)
  assume "x \<notin> set (sub_folders s)"
  then have x: "x \<noteq> sub" using Archive by simp
  have "child (final_state (extractall ms d sub fs)) d x = child fs d x" for ms
    using x by (rule extractall_child)
  then have "extractall ms d sub fs = Done fs1 \<Longrightarrow> child fs1 d x = child fs d x"
    and "extractall ms d sub fs = Raised e fs1 \<Longrightarrow> child fs1 d x = child fs d x" for ms fs1 e
    by (metis final_state_Done, metis final_state_Raised)
  then show ?thesis
    by (auto simp: Archive split: sum.splits outcome.splits)
qed

lemma to_pickle_child:
  "x \<noteq> pkl \<Longrightarrow> child (final_state (to_pickle w df d pkl fs)) d x = child fs d x"
  by (simp add: to_pickle_def child_at_dir_frame write_bytes_other)

lemma cleanup_child:
  "x \<notin> set (sub_folders s) \<Longrightarrow> child (final_state (cleanup d s fs)) d x = child fs d x"
  by (cases s) (simp_all add: child_at_dir_frame rmtree_other)

lemma exec_step_child:
  assumes "x \<noteq> cache_file s" and "x \<notin> set (sub_folders s)"
  shows "child (final_state (exec_step w d s fs)) d x = child fs d x"
proof -
  obtain r fs1 where a: "acquire w d s fs = (r, fs1)" by (cases "acquire w d s fs")
  have 1: "child fs1 d x = child fs d x"
    using acquire_child [OF assms(2), of w d fs] a by simp
  show ?thesis
  proof (cases r)
    case (Inl e)
    with a 1 show ?thesis by (simp add: exec_step_def)
  next
    case (Inr df)
    have 2: "child (final_state (to_pickle w df d (cache_file s) fs1)) d x = child fs1 d x"
      using assms(1) by (rule to_pickle_child)
    show ?thesis
    proof (cases "to_pickle w df d (cache_file s) fs1")
      case (Done fs2)
      with a Inr 1 2 cleanup_child [OF assms(2), of d fs2] show ?thesis
        by (simp add: exec_step_def)
    next
      case (Raised e fs2)
      with a Inr 1 2 show ?thesis by (simp add: exec_step_def)
    qed
  qed
qed


lemma to_pickle_Done:
  assumes "to_pickle w df d pkl fs = Done fs'"
  shows "\<exists>c. fs d = Some (Dir c) \<and> fs' = fs(d \<mapsto> Dir (c(pkl \<mapsto> File (pickle_dumps w df))))"
  using assms
  by (auto simp: to_pickle_def at_dir_def split: option.splits node.splits outcome.splits
           dest: write_bytes_Done)

lemma to_pickle_Raised:
  assumes "to_pickle w df d pkl fs = Raised e fs'"
  shows "child fs' d x = child fs d x"
  using assms
  by (auto simp: to_pickle_def at_dir_def child_def
           split: option.splits node.splits outcome.splits dest: write_bytes_Raised)

lemma gpd_read_file_Inr:
  "gpd_read_file w d sub shp fs = Inr df \<Longrightarrow> \<exists>c. child fs d sub = Some (Dir c)"
  by (auto simp: gpd_read_file_def split: option.splits node.splits)

lemma acquire_Archive_Inr:
  "acquire w d (Archive url sub shp pkl) fs = (Inr df, fs1) \<Longrightarrow>
     \<exists>c. child fs1 d sub = Some (Dir c)"
  by (auto split: sum.splits outcome.splits dest: gpd_read_file_Inr)

lemma cleanup_Archive_Done:
  assumes "fs d = Some (Dir c)" and "c sub = Some (Dir c')"
  shows "cleanup d (Archive url sub shp pkl) fs = Done (fs(d \<mapsto> Dir (c(sub := None))))"
  using assms by (simp add: at_dir_def rmtree_def)

text \<open>A step that has got its table and written it cannot fail any more.\<close>

lemma exec_step_cases:
  assumes "cache_file s \<notin> set (sub_folders s)"
  shows "(\<exists>e fs1. acquire w d s fs = (Inl e, fs1) \<and> exec_step w d s fs = Raised e fs1)
       \<or> (\<exists>df fs1 e fs2. acquire w d s fs = (Inr df, fs1)
             \<and> to_pickle w df d (cache_file s) fs1 = Raised e fs2
             \<and> exec_step w d s fs = Raised e fs2)
       \<or> (\<exists>df fs1 fs2 fs3. acquire w d s fs = (Inr df, fs1)
             \<and> to_pickle w df d (cache_file s) fs1 = Done fs2
             \<and> cleanup d s fs2 = Done fs3
             \<and> exec_step w d s fs = Done fs3)"
proof -
  obtain r fs1 where a: "acquire w d s fs = (r, fs1)" by (cases "acquire w d s fs")
  show ?thesis
  proof (cases r)
    case (Inl e)
    with a show ?thesis by (simp add: exec_step_def)
  next
    case (Inr df)
    show ?thesis
    proof (cases "to_pickle w df d (cache_file s) fs1")
      case (Raised e fs2)
      with a Inr show ?thesis by (simp add: exec_step_def)
    next
      case (Done fs2)
      have "\<exists>fs3. cleanup d s fs2 = Done fs3"
      proof (cases s)
        case (Tabular url pkl)
        then show ?thesis by simp
      next
        case (Archive url sub shp pkl)
        from assms Archive have ne: "sub \<noteq> pkl" by auto
        from a Inr Archive have "acquire w d (Archive url sub shp pkl) fs = (Inr df, fs1)"
          by simp
        from acquire_Archive_Inr [OF this]
        obtain c1 where c1: "child fs1 d sub = Some (Dir c1)" ..
        from to_pickle_Done [OF Done] Archive obtain c where
          c: "fs1 d = Some (Dir c)" "fs2 = fs1(d \<mapsto> Dir (c(pkl \<mapsto> File (pickle_dumps w df))))"
          by auto
        from c1 c(1) have "c sub = Some (Dir c1)" by (simp add: child_def)
        with c(2) ne have "fs2 d = Some (Dir (c(pkl \<mapsto> File (pickle_dumps w df))))"
          and "(c(pkl \<mapsto> File (pickle_dumps w df))) sub = Some (Dir c1)" by simp_all
        then show ?thesis using Archive cleanup_Archive_Done by blast
      qed
      then obtain fs3 where "cleanup d s fs2 = Done fs3" ..
      with a Inr Done show ?thesis by (simp add: exec_step_def)
    qed
  qed
qed

lemma exec_step_Done_cache:
  assumes "exec_step w d s fs = Done fs'" and "cache_file s \<notin> set (sub_folders s)"
  shows "\<exists>df. child fs' d (cache_file s) = Some (File (pickle_dumps w df))"
proof -
  from exec_step_cases [OF assms(2), of w d fs] assms(1)
  obtain df fs1 fs2 where a: "acquire w d s fs = (Inr df, fs1)"
    and p: "to_pickle w df d (cache_file s) fs1 = Done fs2"
    and c: "cleanup d s fs2 = Done fs'"
    by auto
  from to_pickle_Done [OF p]
  have "child fs2 d (cache_file s) = Some (File (pickle_dumps w df))"
    by (auto simp: child_def)
  moreover have "child fs' d (cache_file s) = child fs2 d (cache_file s)"
    using cleanup_child [OF assms(2), of d fs2] c by simp
  ultimately show ?thesis by auto
qed

lemma exec_step_Raised_child:
  assumes "exec_step w d s fs = Raised e fs'"
    and "cache_file s \<notin> set (sub_folders s)" and "x \<notin> set (sub_folders s)"
  shows "child fs' d x = child fs d x"
proof -
  from exec_step_cases [OF assms(2), of w d fs] assms(1)
  consider "acquire w d s fs = (Inl e, fs')"
    | df fs1 where "acquire w d s fs = (Inr df, fs1)"
        "to_pickle w df d (cache_file s) fs1 = Raised e fs'"
    by auto
  then show ?thesis
  proof cases
    case 1
    with acquire_child [OF assms(3), of w d fs] show ?thesis by simp
  next
    case 2
    with acquire_child [OF assms(3), of w d fs] to_pickle_Raised [OF 2(2), of x]
    show ?thesis by simp
  qed
qed

lemma run_steps_append:
  "run_steps w d (xs @ ys) fs =
     (case run_steps w d xs fs of
        Raised e fs1 \<Rightarrow> Raised e fs1
      | Done fs1 \<Rightarrow> run_steps w d ys fs1)"
  by (induction xs arbitrary: fs) (simp_all split: outcome.splits)

lemma run_steps_Done:
  assumes "run_steps w d ss fs = Done fs'"
    and "distinct (map cache_file ss)"
    and "set (map cache_file ss) \<inter> set (concat (map sub_folders ss)) = {}"
  shows "(\<forall>p\<in>set ss. \<exists>df. child fs' d (cache_file p) = Some (File (pickle_dumps w df)))
       \<and> (\<forall>x. x \<notin> set (map cache_file ss) \<longrightarrow> x \<notin> set (concat (map sub_folders ss))
             \<longrightarrow> child fs' d x = child fs d x)"
  using assms
proof (induction ss arbitrary: fs)
  case Nil
  then show ?case by simp
next
  case (Cons s ss)
  from Cons.prems(1) obtain fs1 where s: "exec_step w d s fs = Done fs1"
    and ss: "run_steps w d ss fs1 = Done fs'"
    by (auto split: outcome.splits)
  from Cons.prems(2) have d: "distinct (map cache_file ss)" "cache_file s \<notin> set (map cache_file ss)"
    by simp_all
  from Cons.prems(3) have i: "set (map cache_file ss) \<inter> set (concat (map sub_folders ss)) = {}"
    and n1: "cache_file s \<notin> set (sub_folders s)"
    and n2: "cache_file s \<notin> set (concat (map sub_folders ss))"
    by auto
  from Cons.IH [OF ss d(1) i]
  have ih1: "\<forall>p\<in>set ss. \<exists>df. child fs' d (cache_file p) = Some (File (pickle_dumps w df))"
    and ih2: "\<And>x. x \<notin> set (map cache_file ss) \<Longrightarrow> x \<notin> set (concat (map sub_folders ss))
             \<Longrightarrow> child fs' d x = child fs1 d x"
    by auto
  have "child fs' d (cache_file s) = child fs1 d (cache_file s)"
    using ih2 d(2) n2 by simp
  with exec_step_Done_cache [OF s n1]
  have here: "\<exists>df. child fs' d (cache_file s) = Some (File (pickle_dumps w df))" by simp
  have frame: "child fs' d x = child fs d x"
    if "x \<notin> set (map cache_file (s # ss))" "x \<notin> set (concat (map sub_folders (s # ss)))" for x
  proof -
    from that have "child fs' d x = child fs1 d x" using ih2 by simp
    moreover from that have "child fs1 d x = child fs d x"
      using exec_step_child [of x s w d fs] s by simp
    ultimately show ?thesis by simp
  qed
  from ih1 here frame show ?case by simp
qed


lemmas cell_defs =
  fetch_steps_def cell_9_def cell_14_def cell_17_def cell_21_def cell_25_def
  cell_28_def cell_31_def cell_33_def

lemmas text_defs =
  CTP_all_states_def CAN_Key_def CAN_File_def JHU_Github_URL_def JHU_Github_Path_def
  JHU_File_US_confirmed_def JHU_File_US_deaths_def JHU_File_Global_confirmed_def
  JHU_File_Global_deaths_def JHU_Github_Path2_def JHU_geo_data_def geodata_url_28_def
  zip_file_path_28_def geodata_url_31_def zip_file_path_31_def zip_file_path_33_def

lemmas fs_defs =
  is_dir_def is_file_def rmtree_def unlink_def mkdir_def at_dir_def child_def
  write_bytes_def to_pickle_def write_member_def extract_member_def gpd_read_file_def
  exec_step_def download_folder_def cell_6_def run_notebook_def

lemmas sample_defs =
  sample_world_def no_shp_world_def key_refused_world_def empty_cwd_def fresh_cwd_def
  used_cwd_def file_cwd_def link_cwd_def

lemma cache_files_fetch_steps:
  "map cache_file fetch_steps =
     [''covid_tracking_project.pkl'', ''covid_act_now.pkl'', ''jhu_confirmed_us.pkl'',
      ''jhu_deaths_us.pkl'', ''jhu_confirmed_global.pkl'', ''jhu_deaths_global.pkl'',
      ''jhu_geo_data.pkl'', ''ne_10m_admin_0_countries.pkl'', ''tl_2017_us_state.pkl'',
      ''tl_2017_us_county.pkl'']"
  by (simp add: cell_defs)

lemma sub_folders_fetch_steps:
  "concat (map sub_folders fetch_steps) = [''shapes_global'', ''shapes_state'', ''shapes_county'']"
  by (simp add: cell_defs)

lemma fetch_steps_cache_distinct: "distinct (map cache_file fetch_steps)"
  unfolding cache_files_fetch_steps by simp

lemma fetch_steps_apart:
  "set (map cache_file fetch_steps) \<inter> set (concat (map sub_folders fetch_steps)) = {}"
  unfolding cache_files_fetch_steps sub_folders_fetch_steps by simp

lemma cell_6_Done:
  "cell_6 t fs = Done fs' \<Longrightarrow> fs' (download_folder t) = Some (Dir Map.empty)"
  by (auto simp: cell_6_def Let_def mkdir_def split: outcome.splits option.splits if_splits)

lemma outcome_Done_final: "raised r = None \<Longrightarrow> r = Done (final_state r)"
  by (cases r) simp_all

text \<open>What the outside world refuses, the step raises.\<close>

lemma acquire_Tabular_error:
  "pd_read_csv w url = Inl e \<Longrightarrow> acquire w d (Tabular url pkl) fs = (Inl e, fs)"
  by simp

lemma acquire_Archive_transport_error:
  "urlopen_read w url = Inl e \<Longrightarrow> acquire w d (Archive url sub shp pkl) fs = (Inl e, fs)"
  by simp

lemma acquire_Archive_zip_error:
  "urlopen_read w url = Inr body \<Longrightarrow> zip_members w body = Inl e \<Longrightarrow>
     acquire w d (Archive url sub shp pkl) fs = (Inl e, fs)"
  by simp

lemma acquire_Archive_parse_error:
  "urlopen_read w url = Inr body \<Longrightarrow> zip_members w body = Inr members \<Longrightarrow>
   extractall members d sub fs = Done fs1 \<Longrightarrow> gpd_read_file w d sub shp fs1 = Inl e \<Longrightarrow>
     acquire w d (Archive url sub shp pkl) fs = (Inl e, fs1)"
  by simp

lemma cleanup_Archive_Done_state:
  assumes "cleanup d (Archive url sub shp pkl) fs = Done fs'"
  shows "\<exists>c. fs d = Some (Dir c) \<and> fs' = fs(d \<mapsto> Dir (c(sub := None)))"
  using assms
  by (auto simp: at_dir_def split: option.splits node.splits outcome.splits dest: rmtree_Done)

lemma CAN_Key_text: "CAN_Key = ''<your key here>''"
  by (simp add: CAN_Key_def)

lemma cell_14_step: "cell_14 = [Tabular (''https://api.covidactnow.org/v2/states.timeseries.csv?apiKey='' @ CAN_Key)
                  ''covid_act_now.pkl'']"
  by (simp add: cell_14_def CAN_File_def)

lemma exec_step_cell_14: "exec_step w d (hd cell_14) fs =
       (case pd_read_csv w ''https://api.covidactnow.org/v2/states.timeseries.csv?apiKey=<your key here>'' of
          Inl e \<Rightarrow> Raised e fs
        | Inr df \<Rightarrow> to_pickle w df d ''covid_act_now.pkl'' fs)"
proof -
  have u: "hd cell_14 = Tabular ''https://api.covidactnow.org/v2/states.timeseries.csv?apiKey=<your key here>'' ''covid_act_now.pkl''"
    by (simp add: cell_14_def CAN_Key_def CAN_File_def)
  show ?thesis
    unfolding u exec_step_def
    by (cases "pd_read_csv w ''https://api.covidactnow.org/v2/states.timeseries.csv?apiKey=<your key here>''")
       (simp_all split: outcome.splits)
qed


section \<open>Properties of workspace preparation\<close>

lemma cell_6_absent:
  "fs (download_folder t) = None \<Longrightarrow>
     cell_6 t fs = Done (fs(download_folder t \<mapsto> Dir Map.empty))"
  by (simp add: cell_6_def is_dir_def is_file_def mkdir_def)

lemma cell_6_dir:
  "fs (download_folder t) = Some (Dir c) \<Longrightarrow>
     cell_6 t fs = Done (fs(download_folder t \<mapsto> Dir Map.empty))"
  by (simp add: cell_6_def is_dir_def rmtree_def mkdir_def)

lemma cell_6_file:
  "fs (download_folder t) = Some (File b) \<Longrightarrow>
     cell_6 t fs = Done (fs(download_folder t \<mapsto> Dir Map.empty))"
  by (simp add: cell_6_def is_dir_def is_file_def unlink_def mkdir_def)

text \<open>
  Claim C2. Workspace preparation is idempotent with respect to what was there before:
  whether the workspace path is absent, a directory with any contents, or a regular
  file, cell 6 completes and leaves an empty directory at the path, and run a second
  time on the same date it completes again and leaves the same state. Nothing else in
  the working directory changes.
\<close>

theorem cell_6_idempotent:
  assumes "fs (download_folder t) = None
         \<or> (\<exists>c. fs (download_folder t) = Some (Dir c))
         \<or> (\<exists>b. fs (download_folder t) = Some (File b))"
  shows "cell_6 t fs = Done (fs(download_folder t \<mapsto> Dir Map.empty))
       \<and> cell_6 t (final_state (cell_6 t fs)) = Done (fs(download_folder t \<mapsto> Dir Map.empty))
       \<and> final_state (cell_6 t (final_state (cell_6 t fs))) (download_folder t)
           = Some (Dir Map.empty)"
proof -
  let ?fs1 = "fs(download_folder t \<mapsto> Dir Map.empty)"
  from assms have once: "cell_6 t fs = Done ?fs1"
    by (auto simp: cell_6_absent cell_6_dir cell_6_file)
  have "?fs1 (download_folder t) = Some (Dir Map.empty)" by simp
  then have "cell_6 t ?fs1 = Done (?fs1(download_folder t \<mapsto> Dir Map.empty))"
    by (rule cell_6_dir)
  then have twice: "cell_6 t ?fs1 = Done ?fs1" by simp
  from once twice show ?thesis by simp
qed

theorem cell_6_idempotent_witness:
  "cell_6 ''2020-12-21'' empty_cwd = Done fresh_cwd
   \<and> cell_6 ''2020-12-21'' (final_state (cell_6 ''2020-12-21'' empty_cwd)) = Done fresh_cwd
   \<and> cell_6 ''2020-12-21'' used_cwd = Done fresh_cwd
   \<and> cell_6 ''2020-12-21'' (final_state (cell_6 ''2020-12-21'' used_cwd)) = Done fresh_cwd
   \<and> cell_6 ''2020-12-21'' file_cwd = Done fresh_cwd
   \<and> cell_6 ''2020-12-21'' (final_state (cell_6 ''2020-12-21'' file_cwd)) = Done fresh_cwd"
proof -
  let ?d = "download_folder ''2020-12-21''"
  have absent: "empty_cwd ?d = None
         \<or> (\<exists>c. empty_cwd ?d = Some (Dir c)) \<or> (\<exists>b. empty_cwd ?d = Some (File b))"
    by (simp add: empty_cwd_def)
  have directory: "used_cwd ?d = None
         \<or> (\<exists>c. used_cwd ?d = Some (Dir c)) \<or> (\<exists>b. used_cwd ?d = Some (File b))"
    by (simp add: used_cwd_def download_folder_def)
  have regular: "file_cwd ?d = None
         \<or> (\<exists>c. file_cwd ?d = Some (Dir c)) \<or> (\<exists>b. file_cwd ?d = Some (File b))"
    by (simp add: file_cwd_def download_folder_def)
  have e1: "empty_cwd(?d \<mapsto> Dir Map.empty) = fresh_cwd"
    by (simp add: empty_cwd_def fresh_cwd_def download_folder_def)
  have e2: "used_cwd(?d \<mapsto> Dir Map.empty) = fresh_cwd"
    by (simp add: used_cwd_def fresh_cwd_def download_folder_def)
  have e3: "file_cwd(?d \<mapsto> Dir Map.empty) = fresh_cwd"
    by (simp add: file_cwd_def fresh_cwd_def download_folder_def)
  from cell_6_idempotent [of empty_cwd "''2020-12-21''", OF absent, unfolded e1]
    cell_6_idempotent [of used_cwd "''2020-12-21''", OF directory, unfolded e2]
    cell_6_idempotent [of file_cwd "''2020-12-21''", OF regular, unfolded e3]
  show ?thesis by blast
qed

text \<open>
  Claim C4. When the workspace path does not exist, cell 6 creates it as an empty
  directory; when the path is a regular file, cell 6 removes the file and creates an
  empty directory in its place.
\<close>

theorem cell_6_creates_workspace:
  "(fs (download_folder t) = None \<longrightarrow>
      cell_6 t fs = Done (fs(download_folder t \<mapsto> Dir Map.empty)))
   \<and> (fs (download_folder t) = Some (File b) \<longrightarrow>
      cell_6 t fs = Done (fs(download_folder t \<mapsto> Dir Map.empty)))"
  by (simp add: cell_6_absent cell_6_file)

theorem cell_6_creates_workspace_witness:
  "cell_6 ''2020-12-21'' empty_cwd = Done fresh_cwd
   \<and> cell_6 ''2020-12-21'' file_cwd = Done fresh_cwd"
proof -
  have a: "empty_cwd (download_folder ''2020-12-21'') = None"
    by (simp add: empty_cwd_def)
  have b: "file_cwd (download_folder ''2020-12-21'') = Some (File [7])"
    by (simp add: file_cwd_def download_folder_def)
  have ea: "empty_cwd(download_folder ''2020-12-21'' \<mapsto> Dir Map.empty) = fresh_cwd"
    by (simp add: empty_cwd_def fresh_cwd_def download_folder_def)
  have eb: "file_cwd(download_folder ''2020-12-21'' \<mapsto> Dir Map.empty) = fresh_cwd"
    by (simp add: file_cwd_def fresh_cwd_def download_folder_def)
  from cell_6_creates_workspace [of empty_cwd "''2020-12-21''"] a ea
  have 1: "cell_6 ''2020-12-21'' empty_cwd = Done fresh_cwd" by simp
  from cell_6_creates_workspace [of file_cwd "''2020-12-21''" "[7]"] b eb
  have 2: "cell_6 ''2020-12-21'' file_cwd = Done fresh_cwd" by simp
  from 1 2 show ?thesis by simp
qed

text \<open>
  Claim C8. When the name of the workspace is taken by an entry that is neither a
  directory nor a regular file (a dangling symbolic link), neither removal branch of
  cell 6 applies: the cell is the call of \<^verbatim>\<open>mkdir\<close> alone, which raises
  \<^verbatim>\<open>FileExistsError\<close>, and the file system is as it was.
\<close>

theorem cell_6_dangling_link_fails:
  assumes "fs (download_folder t) = Some n"
    and "\<not> is_dir fs (download_folder t)" and "\<not> is_file fs (download_folder t)"
  shows "cell_6 t fs = mkdir (download_folder t) fs
       \<and> mkdir (download_folder t) fs = Raised FileExistsError fs
       \<and> final_state (cell_6 t fs) = fs"
  using assms by (cases n) (simp_all add: cell_6_def is_dir_def is_file_def mkdir_def)

theorem cell_6_dangling_link_fails_witness:
  "cell_6 ''2020-12-21'' link_cwd = Raised FileExistsError link_cwd"
proof -
  have a: "link_cwd (download_folder ''2020-12-21'') = Some DanglingLink"
    by (simp add: link_cwd_def download_folder_def)
  have b: "\<not> is_dir link_cwd (download_folder ''2020-12-21'')"
    by (simp add: is_dir_def link_cwd_def download_folder_def)
  have c: "\<not> is_file link_cwd (download_folder ''2020-12-21'')"
    by (simp add: is_file_def link_cwd_def download_folder_def)
  from cell_6_dangling_link_fails [of link_cwd "''2020-12-21''", OF a b c] show ?thesis by simp
qed


section \<open>Properties of the fetch steps\<close>

text \<open>
  Claim C7. The ten fetch steps write ten different cache file names, the three scratch
  subdirectories have three different names, and no cache file has the name of a
  scratch subdirectory. So a step, however it ends, leaves the cache file of every other
  step as it found it.
\<close>

theorem fetch_steps_names_distinct:
  "distinct (map cache_file fetch_steps)
   \<and> distinct (concat (map sub_folders fetch_steps))
   \<and> set (map cache_file fetch_steps) \<inter> set (concat (map sub_folders fetch_steps)) = {}
   \<and> length fetch_steps = 10
   \<and> length (concat (map sub_folders fetch_steps)) = 3
   \<and> (\<forall>s\<in>set fetch_steps. \<forall>s'\<in>set fetch_steps. s \<noteq> s' \<longrightarrow>
         cache_file s \<noteq> cache_file s'
         \<and> child (final_state (exec_step w d s' fs)) d (cache_file s) = child fs d (cache_file s))"
proof -
  have 1: "distinct (map cache_file fetch_steps)" by (rule fetch_steps_cache_distinct)
  have 2: "distinct (concat (map sub_folders fetch_steps))"
    unfolding sub_folders_fetch_steps by simp
  have 3: "set (map cache_file fetch_steps) \<inter> set (concat (map sub_folders fetch_steps)) = {}"
    by (rule fetch_steps_apart)
  have 4: "length fetch_steps = 10" by (simp add: cell_defs)
  have 5: "length (concat (map sub_folders fetch_steps)) = 3"
    unfolding sub_folders_fetch_steps by simp
  have 6: "cache_file s \<noteq> cache_file s'
      \<and> child (final_state (exec_step w d s' fs)) d (cache_file s) = child fs d (cache_file s)"
    if "s \<in> set fetch_steps" "s' \<in> set fetch_steps" "s \<noteq> s'" for s s'
  proof -
    from 1 have "inj_on cache_file (set fetch_steps)" by (simp add: distinct_map)
    with that have a: "cache_file s \<noteq> cache_file s'" by (auto dest: inj_onD)
    from 3 that have b: "cache_file s \<notin> set (sub_folders s')" by auto
    from a b show ?thesis by (simp add: exec_step_child)
  qed
  from 1 2 3 4 5 6 show ?thesis by blast
qed


theorem fetch_steps_names_distinct_witness:
  "cache_file (hd cell_9) \<noteq> cache_file (hd cell_28)
   \<and> child (final_state (exec_step sample_world ''2020-12-21-COVID-19-Data'' (hd cell_28) used_cwd))
       ''2020-12-21-COVID-19-Data'' (cache_file (hd cell_9))
     = child used_cwd ''2020-12-21-COVID-19-Data'' (cache_file (hd cell_9))"
proof -
  have a: "hd cell_9 \<in> set fetch_steps" by (simp add: cell_defs)
  have b: "hd cell_28 \<in> set fetch_steps" by (simp add: cell_defs)
  have c: "hd cell_9 \<noteq> hd cell_28" by (simp add: cell_9_def cell_28_def)
  from fetch_steps_names_distinct [of sample_world "''2020-12-21-COVID-19-Data''" used_cwd] a b c
  show ?thesis by blast
qed

text \<open>
  Claim C1 says that the scratch subdirectory is gone after an archive step whether the
  parse succeeded or failed. It is not so when the parse fails: with an archive that
  lacks the shapefile, cell 28 extracts into \<^verbatim>\<open>shapes_global\<close>,
  \<^verbatim>\<open>gpd.read_file\<close> raises, and the \<^verbatim>\<open>rmtree\<close> at the end of the cell is never
  reached. The subdirectory was not there before the step and is there after it; the
  same holds for the run of the whole notebook from an empty working directory.
\<close>

theorem archive_parse_failure_keeps_scratch:
  "raised (exec_step no_shp_world ''2020-12-21-COVID-19-Data'' (hd cell_28) fresh_cwd)
     = Some DriverError
   \<and> is_dir fresh_cwd ''2020-12-21-COVID-19-Data''
   \<and> child fresh_cwd ''2020-12-21-COVID-19-Data'' ''shapes_global'' = None
   \<and> child (final_state (exec_step no_shp_world ''2020-12-21-COVID-19-Data'' (hd cell_28) fresh_cwd))
       ''2020-12-21-COVID-19-Data'' ''shapes_global'' \<noteq> None
   \<and> raised (run_notebook no_shp_world empty_cwd) = Some DriverError
   \<and> child (final_state (run_notebook no_shp_world empty_cwd))
       ''2020-12-21-COVID-19-Data'' ''shapes_global'' \<noteq> None"
proof -
  have step: "raised (exec_step no_shp_world ''2020-12-21-COVID-19-Data'' (hd cell_28) fresh_cwd)
                = Some DriverError
    \<and> child (final_state (exec_step no_shp_world ''2020-12-21-COVID-19-Data'' (hd cell_28) fresh_cwd))
         ''2020-12-21-COVID-19-Data'' ''shapes_global'' \<noteq> None"
    by (simp add: cell_28_def fs_defs sample_defs)
  have before: "is_dir fresh_cwd ''2020-12-21-COVID-19-Data''
    \<and> child fresh_cwd ''2020-12-21-COVID-19-Data'' ''shapes_global'' = None"
    by (simp add: is_dir_def child_def fresh_cwd_def)
  have run: "raised (run_notebook no_shp_world empty_cwd) = Some DriverError
    \<and> child (final_state (run_notebook no_shp_world empty_cwd))
         ''2020-12-21-COVID-19-Data'' ''shapes_global'' \<noteq> None"
    by (simp add: cell_defs fs_defs sample_defs)
  from step before run show ?thesis by simp
qed


text \<open>
  Claim C1, amended. For every archive step (global, state and county boundaries): when
  the step completes, that is when no statement of it raises, the workspace is a
  directory and the scratch subdirectory used for extraction no longer exists in it.
\<close>

theorem archive_step_done_scratch_removed:
  assumes "exec_step w d (Archive url sub shp pkl) fs = Done fs'"
  shows "is_dir fs' d \<and> child fs' d sub = None"
proof -
  from assms obtain fs2 where "cleanup d (Archive url sub shp pkl) fs2 = Done fs'"
    by (auto simp: exec_step_def split: prod.splits sum.splits outcome.splits)
  from cleanup_Archive_Done_state [OF this] show ?thesis
    by (auto simp: is_dir_def child_def)
qed

theorem archive_step_done_scratch_removed_witness:
  "is_dir (final_state (exec_step sample_world ''2020-12-21-COVID-19-Data'' (hd cell_28) fresh_cwd))
     ''2020-12-21-COVID-19-Data''
   \<and> child (final_state (exec_step sample_world ''2020-12-21-COVID-19-Data'' (hd cell_28) fresh_cwd))
       ''2020-12-21-COVID-19-Data'' ''shapes_global'' = None"
proof -
  let ?s = "Archive (geodata_url_28 @ zip_file_path_28) ''shapes_global''
              ''ne_10m_admin_0_countries.shp'' ''ne_10m_admin_0_countries.pkl''"
  let ?r = "exec_step sample_world ''2020-12-21-COVID-19-Data'' ?s fresh_cwd"
  have "raised ?r = None"
    by (simp add: fs_defs sample_defs)
  then have "?r = Done (final_state ?r)" by (rule outcome_Done_final)
  from archive_step_done_scratch_removed [OF this] show ?thesis by (simp add: cell_28_def)
qed

text \<open>
  Claim C3. Take any fetch step \<open>s\<close> of the notebook, with the steps \<open>pre\<close> before it
  and \<open>post\<close> after it. If the workspace was prepared, the steps before \<open>s\<close> completed,
  and the fetch or the parse of \<open>s\<close> raises \<open>e\<close>, then the run of the notebook ends
  with \<open>e\<close> raised in the state that step had reached; in it every earlier step has
  its pickled cache file, no cache file of \<open>s\<close> or of a later step exists, and every
  cache file is as the earlier steps left it.
\<close>

theorem abort_keeps_earlier_cache_files:
  assumes parts: "fetch_steps = pre @ s # post"
    and prep: "cell_6 (today w) fs0 = Done fs"
    and before: "run_steps w (download_folder (today w)) pre fs = Done fs1"
    and fails: "acquire w (download_folder (today w)) s fs1 = (Inl e, fs2)"
  shows "run_notebook w fs0 = Raised e fs2
       \<and> (\<forall>p\<in>set pre. \<exists>df. child fs2 (download_folder (today w)) (cache_file p)
                               = Some (File (pickle_dumps w df)))
       \<and> (\<forall>q\<in>set (s # post). child fs2 (download_folder (today w)) (cache_file q) = None)
       \<and> (\<forall>p\<in>set fetch_steps. child fs2 (download_folder (today w)) (cache_file p)
                                 = child fs1 (download_folder (today w)) (cache_file p))"
proof -
  let ?d = "download_folder (today w)"
  have dist: "distinct (map cache_file pre @ map cache_file (s # post))"
    using fetch_steps_cache_distinct unfolding parts by simp
  then have dpre: "distinct (map cache_file pre)" by simp
  have apart: "set (map cache_file (pre @ s # post))
                 \<inter> set (concat (map sub_folders (pre @ s # post))) = {}"
    using fetch_steps_apart unfolding parts by simp
  then have apre: "set (map cache_file pre) \<inter> set (concat (map sub_folders pre)) = {}"
    by auto
  have step: "exec_step w ?d s fs1 = Raised e fs2"
    using fails by (simp add: exec_step_def)
  have run: "run_notebook w fs0 = Raised e fs2"
    using prep before step by (simp add: run_notebook_def parts run_steps_append)
  have same: "child fs2 ?d (cache_file p) = child fs1 ?d (cache_file p)"
    if "p \<in> set fetch_steps" for p
  proof -
    have "s \<in> set fetch_steps" unfolding parts by simp
    with that fetch_steps_apart have "cache_file p \<notin> set (sub_folders s)" by auto
    from acquire_child [OF this, of w ?d fs1] fails show ?thesis by simp
  qed
  from run_steps_Done [OF before dpre apre]
  have written: "\<forall>p\<in>set pre. \<exists>df. child fs1 ?d (cache_file p) = Some (File (pickle_dumps w df))"
    and frame: "\<And>x. x \<notin> set (map cache_file pre) \<Longrightarrow> x \<notin> set (concat (map sub_folders pre))
                  \<Longrightarrow> child fs1 ?d x = child fs ?d x"
    by auto
  have earlier: "\<forall>p\<in>set pre. \<exists>df. child fs2 ?d (cache_file p) = Some (File (pickle_dumps w df))"
  proof
    fix p assume p: "p \<in> set pre"
    then have "p \<in> set fetch_steps" unfolding parts by simp
    then have "child fs2 ?d (cache_file p) = child fs1 ?d (cache_file p)" by (rule same)
    with written p show "\<exists>df. child fs2 ?d (cache_file p) = Some (File (pickle_dumps w df))"
      by simp
  qed
  have empty: "child fs ?d x = None" for x
    using cell_6_Done [OF prep] by (simp add: child_def)
  have later: "child fs2 ?d (cache_file q) = None" if q: "q \<in> set (s # post)" for q
  proof -
    from q dist have 1: "cache_file q \<notin> set (map cache_file pre)" by auto
    from q apart have 2: "cache_file q \<notin> set (concat (map sub_folders pre))" by auto
    from q have "q \<in> set fetch_steps" unfolding parts by auto
    then have "child fs2 ?d (cache_file q) = child fs1 ?d (cache_file q)" by (rule same)
    also have "\<dots> = child fs ?d (cache_file q)" using 1 2 by (rule frame)
    also have "\<dots> = None" by (rule empty)
    finally show ?thesis .
  qed
  from run earlier later same show ?thesis by blast
qed

theorem abort_keeps_earlier_cache_files_witness:
  "run_notebook key_refused_world empty_cwd = Raised (HTTPError 403) used_cwd
   \<and> child used_cwd ''2020-12-21-COVID-19-Data'' ''covid_tracking_project.pkl'' = Some (File [1])
   \<and> child used_cwd ''2020-12-21-COVID-19-Data'' ''covid_act_now.pkl'' = None"
proof -
  let ?s = "Tabular (''https://api.covidactnow.org/v2/'' @ CAN_File @ ''?apiKey='' @ CAN_Key)
              ''covid_act_now.pkl''"
  let ?post = "cell_17 @ cell_21 @ cell_25 @ cell_28 @ cell_31 @ cell_33"
  have h1: "fetch_steps = cell_9 @ ?s # ?post"
    by (simp add: fetch_steps_def cell_14_def)
  have h2: "cell_6 (today key_refused_world) empty_cwd = Done fresh_cwd"
    by (simp add: fs_defs sample_defs)
  have h3: "run_steps key_refused_world (download_folder (today key_refused_world)) cell_9 fresh_cwd
              = Done used_cwd"
    by (simp add: cell_9_def fs_defs sample_defs)
  have h4: "acquire key_refused_world (download_folder (today key_refused_world)) ?s used_cwd
              = (Inl (HTTPError 403), used_cwd)"
    by (simp add: sample_defs text_defs)
  from abort_keeps_earlier_cache_files [OF h1 h2 h3 h4] show ?thesis
    by (simp add: child_def used_cwd_def)
qed

text \<open>
  Claim C9. The \<^verbatim>\<open>rmtree\<close> at the end of an archive step of the notebook removes the
  scratch subdirectory and nothing else: every other entry of the workspace, so every
  cache file of the run and the pickle file the same step has just written, and every
  entry outside the workspace is as before.
\<close>

theorem cleanup_keeps_cache_files:
  assumes "Archive url sub shp pkl \<in> set fetch_steps"
    and "cleanup d (Archive url sub shp pkl) fs = Done fs'"
  shows "child fs' d sub = None
       \<and> (\<forall>x. x \<noteq> sub \<longrightarrow> child fs' d x = child fs d x)
       \<and> (\<forall>s\<in>set fetch_steps. child fs' d (cache_file s) = child fs d (cache_file s))
       \<and> child fs' d pkl = child fs d pkl
       \<and> (\<forall>p. p \<noteq> d \<longrightarrow> fs' p = fs p)"
proof -
  from cleanup_Archive_Done_state [OF assms(2)]
  obtain c where c: "fs d = Some (Dir c)" "fs' = fs(d \<mapsto> Dir (c(sub := None)))" by auto
  have gone: "child fs' d sub = None" using c by (simp add: child_def)
  have others: "child fs' d x = child fs d x" if "x \<noteq> sub" for x
    using c that by (simp add: child_def)
  have top: "fs' p = fs p" if "p \<noteq> d" for p
    using c that by simp
  have "sub \<in> set (concat (map sub_folders fetch_steps))"
    using assms(1) by force
  with fetch_steps_apart have "cache_file s \<noteq> sub" if "s \<in> set fetch_steps" for s
    using that by auto
  then have caches: "\<forall>s\<in>set fetch_steps. child fs' d (cache_file s) = child fs d (cache_file s)"
    using others by simp
  from caches assms(1) have own: "child fs' d pkl = child fs d pkl" by force
  from gone others caches own top show ?thesis by blast
qed

theorem cleanup_keeps_cache_files_witness:
  "child (final_state (cleanup ''2020-12-21-COVID-19-Data'' (hd cell_28) mid_step_cwd))
     ''2020-12-21-COVID-19-Data'' ''shapes_global'' = None
   \<and> child (final_state (cleanup ''2020-12-21-COVID-19-Data'' (hd cell_28) mid_step_cwd))
       ''2020-12-21-COVID-19-Data'' ''ne_10m_admin_0_countries.pkl'' = Some (File [5])
   \<and> child (final_state (cleanup ''2020-12-21-COVID-19-Data'' (hd cell_28) mid_step_cwd))
       ''2020-12-21-COVID-19-Data'' ''covid_tracking_project.pkl'' = Some (File [1])"
proof -
  let ?s = "Archive (geodata_url_28 @ zip_file_path_28) ''shapes_global''
              ''ne_10m_admin_0_countries.shp'' ''ne_10m_admin_0_countries.pkl''"
  let ?r = "cleanup ''2020-12-21-COVID-19-Data'' ?s mid_step_cwd"
  have h1: "?s \<in> set fetch_steps" by (simp add: cell_defs)
  have "raised ?r = None" by (simp add: at_dir_def rmtree_def mid_step_cwd_def)
  then have h2: "?r = Done (final_state ?r)" by (rule outcome_Done_final)
  have before: "child mid_step_cwd ''2020-12-21-COVID-19-Data'' ''ne_10m_admin_0_countries.pkl''
                  = Some (File [5])"
    "child mid_step_cwd ''2020-12-21-COVID-19-Data'' ''covid_tracking_project.pkl''
                  = Some (File [1])"
    by (simp_all add: child_def mid_step_cwd_def)
  from cleanup_keeps_cache_files [OF h1 h2] before show ?thesis by (simp add: cell_28_def)
qed

text \<open>
  Claim C10. \<^verbatim>\<open>CAN_Key\<close> is the placeholder text, the address cell 14 requests ends
  in \<^verbatim>\<open>?apiKey=\<close> followed by that text, and the step is nothing but the request for
  this address followed by the write of the pickle file: no statement looks at the key
  before the request.
\<close>

theorem placeholder_key_requested:
  "CAN_Key = ''<your key here>''
   \<and> cell_14 = [Tabular (''https://api.covidactnow.org/v2/states.timeseries.csv?apiKey='' @ CAN_Key)
                  ''covid_act_now.pkl'']
   \<and> exec_step w d (hd cell_14) fs =
       (case pd_read_csv w ''https://api.covidactnow.org/v2/states.timeseries.csv?apiKey=<your key here>'' of
          Inl e \<Rightarrow> Raised e fs
        | Inr df \<Rightarrow> to_pickle w df d ''covid_act_now.pkl'' fs)"
  using CAN_Key_text cell_14_step exec_step_cell_14 by blast

theorem placeholder_key_requested_witness:
  "exec_step key_refused_world ''2020-12-21-COVID-19-Data'' (hd cell_14) used_cwd
     = Raised (HTTPError 403) used_cwd
   \<and> raised (exec_step sample_world ''2020-12-21-COVID-19-Data'' (hd cell_14) used_cwd) = None
   \<and> child (final_state (exec_step sample_world ''2020-12-21-COVID-19-Data'' (hd cell_14) used_cwd))
       ''2020-12-21-COVID-19-Data'' ''covid_act_now.pkl'' = Some (File [1])"
proof -
  let ?d = "''2020-12-21-COVID-19-Data''"
  have refused: "pd_read_csv key_refused_world
      ''https://api.covidactnow.org/v2/states.timeseries.csv?apiKey=<your key here>''
        = Inl (HTTPError 403)"
    by (simp add: key_refused_world_def sample_world_def CTP_all_states_def)
  have answered: "pd_read_csv sample_world
      ''https://api.covidactnow.org/v2/states.timeseries.csv?apiKey=<your key here>'' = Inr [1]"
    by (simp add: sample_world_def)
  from placeholder_key_requested [of key_refused_world ?d used_cwd] refused
  have 1: "exec_step key_refused_world ?d (hd cell_14) used_cwd = Raised (HTTPError 403) used_cwd"
    by simp
  from placeholder_key_requested [of sample_world ?d used_cwd] answered
  have 2: "exec_step sample_world ?d (hd cell_14) used_cwd
             = to_pickle sample_world [1] ?d ''covid_act_now.pkl'' used_cwd"
    by simp
  have 3: "raised (to_pickle sample_world [1] ?d ''covid_act_now.pkl'' used_cwd) = None"
    by (simp add: to_pickle_def at_dir_def write_bytes_def used_cwd_def)
  have 4: "child (final_state (to_pickle sample_world [1] ?d ''covid_act_now.pkl'' used_cwd))
             ?d ''covid_act_now.pkl'' = Some (File [1])"
    by (simp add: to_pickle_def at_dir_def write_bytes_def used_cwd_def child_def sample_world_def)
  from 1 2 3 4 show ?thesis by simp
qed

end
